theory Spec2Isabelle
  imports Complex_Main
begin

section \<open>Configuration model (bench\_config.py)\<close>

text \<open>
  A data split is a triple of floats. The job factories never compute with the three
  ratios, they only pass them on, so the triple is carried as an opaque value.
\<close>

type_synonym data_split = "real \<times> real \<times> real"

text \<open>
  A selector specification is a \<^verbatim>\<open>Dict[str, Any]\<close>. The code reads the keys
  \<^verbatim>\<open>'name'\<close>, \<^verbatim>\<open>'type'\<close>, \<^verbatim>\<open>'n'\<close> and \<^verbatim>\<open>'selection_seeds'\<close>;
  a key that is absent from the dictionary is \<open>None\<close> here and reading it raises
  \<^verbatim>\<open>KeyError\<close>.
\<close>

record selector_config =
  sc_name :: "string option"
  sc_type :: "string option"
  sc_n :: "int option"
  sc_selection_seeds :: "int list option"

text \<open>
  \<^verbatim>\<open>BenchmarkConfig\<close> is a \<^verbatim>\<open>TypedDict\<close>: its ten top-level keys are always
  present. \<^verbatim>\<open>baselines\<close> is a \<^verbatim>\<open>Dict[str, int]\<close>, read at the key
  \<^verbatim>\<open>'scale'\<close>. The key \<^verbatim>\<open>id\<close> is named \<open>id_cfg\<close>.
\<close>

record benchmark_config =
  id_cfg :: string
  dir :: string
  username :: string
  seeds :: "int list"
  times_in_mins :: "int list"
  openml_tasks :: "int list"
  data_splits :: "data_split list"
  algorithms :: "string list"
  selectors :: "selector_config list"
  baselines :: "string \<rightharpoonup> int"

section \<open>Jobs and the benchmark object (benchmark.py)\<close>

text \<open>
  The three runner paths are module constants of benchmark.py; their values depend on where
  the module is installed, only their identity matters to the job factories.
\<close>

datatype runner = single_algorithm_runner | baseline_runner | selector_runner

text \<open>
  The job classes live in the module \<^verbatim>\<open>jobs\<close>; benchmark.py only calls their
  constructors. A job is the tuple of its constructor arguments, in the constructor's
  argument order. The execution environment \<^verbatim>\<open>SlurmEnvironment(username)\<close> is
  represented by the user name it was built from.

  \<^verbatim>\<open>BaselineJob\<close> receives \<^verbatim>\<open>list(baseline_times)\<close> where
  \<^verbatim>\<open>baseline_times\<close> is a Python \<^verbatim>\<open>set\<close>: the elements are exactly those
  of the set, each once, in an iteration order the language leaves unspecified. The
  argument is therefore modelled as the set itself.
\<close>

datatype single_algorithm_job =
  SingleAlgorithmJob
    (saj_env: string) (saj_seed: int) (saj_times: "int list") (saj_task: int)
    (saj_root: string) (saj_split: data_split) (saj_algo: string) (saj_runner: runner)

datatype baseline_job =
  BaselineJob
    (bj_env: string) (bj_seed: int) (bj_times: "int set") (bj_task: int)
    (bj_root: string) (bj_split: data_split) (bj_runner: runner)

datatype selector_job =
  SelectorJob
    (sj_env: string) (sj_seed: int) (sj_times: "int list") (sj_task: int)
    (sj_root: string) (sj_split: data_split) (sj_runner: runner) (sj_name: string)
    (sj_algorithm_jobs: "single_algorithm_job list")

text \<open>\<^verbatim>\<open>TPOTJob\<close>: what the list returned by \<^verbatim>\<open>jobs()\<close> holds.\<close>

datatype tpot_job =
  Algorithm single_algorithm_job
| Selector selector_job
| Baseline baseline_job

text \<open>
  The state of a \<^verbatim>\<open>Benchmark\<close> object after \<^verbatim>\<open>__init__\<close>:
  \<^verbatim>\<open>self.env\<close>, \<^verbatim>\<open>self.config\<close> and \<^verbatim>\<open>self.folders['root']\<close>.
\<close>

record benchmark =
  env :: string
  config :: benchmark_config
  folders_root :: string

text \<open>
  \<^verbatim>\<open>__init__\<close>; \<open>abspath_join d i\<close> stands for
  \<^verbatim>\<open>os.path.abspath(os.path.join(d, i))\<close>, which depends on the process's working
  directory.
\<close>

definition Benchmark_init :: "(string \<Rightarrow> string \<Rightarrow> string) \<Rightarrow> benchmark_config \<Rightarrow> benchmark" where
  "Benchmark_init abspath_join cfg =
     \<lparr> env = username cfg,
       config = cfg,
       folders_root = abspath_join (dir cfg) (id_cfg cfg) \<rparr>"

datatype error = KeyError string | ValueError

subsection \<open>itertools.product\<close>

text \<open>
  \<^verbatim>\<open>product(A, B, C)\<close> is the nested loop \<^verbatim>\<open>for a in A for b in B for c in C\<close>:
  the rightmost iterable advances fastest.
\<close>

definition product3 :: "'a list \<Rightarrow> 'b list \<Rightarrow> 'c list \<Rightarrow> ('a \<times> 'b \<times> 'c) list" where
  "product3 xs ys zs = [(x, y, z). x \<leftarrow> xs, y \<leftarrow> ys, z \<leftarrow> zs]"

definition product4 ::
  "'a list \<Rightarrow> 'b list \<Rightarrow> 'c list \<Rightarrow> 'd list \<Rightarrow> ('a \<times> 'b \<times> 'c \<times> 'd) list" where
  "product4 xs ys zs ws = [(x, y, z, w). x \<leftarrow> xs, y \<leftarrow> ys, z \<leftarrow> zs, w \<leftarrow> ws]"

subsection \<open>Leaf job factories\<close>

definition algorithm_jobs :: "benchmark \<Rightarrow> single_algorithm_job list" where
  "algorithm_jobs self =
     (let cfg = config self;
          root = folders_root self;
          seeds = seeds cfg;
          times = times_in_mins cfg;
          tasks = openml_tasks cfg;
          splits = data_splits cfg;
          algorithms = algorithms cfg
      in map (\<lambda>(seed, task, split, algo).
                SingleAlgorithmJob (env self) seed times task root split algo
                  single_algorithm_runner)
             (product4 seeds tasks splits algorithms))"

text \<open>
  \<^verbatim>\<open>baseline_jobs\<close>. The loop over \<^verbatim>\<open>range(1, scale+1)\<close> runs over the integer
  interval \<open>[1..scale]\<close> (empty when \<open>scale < 1\<close>), starting from the empty set.
\<close>

definition baseline_jobs :: "benchmark \<Rightarrow> error + baseline_job list" where
  "baseline_jobs self =
     (let cfg = config self;
          root = folders_root self;
          seeds = seeds cfg;
          times = times_in_mins cfg;
          tasks = openml_tasks cfg;
          splits = data_splits cfg
      in case baselines cfg ''scale'' of
           None \<Rightarrow> Inl (KeyError ''scale'')
         | Some scale \<Rightarrow>
             let baseline_times =
                   fold (\<lambda>i baseline_times.
                           let scaled_times = set (map (\<lambda>x. x * i) times)
                           in baseline_times \<union> scaled_times)
                        [1..scale] {}
             in Inr (map (\<lambda>(seed, task, split).
                            BaselineJob (env self) seed baseline_times task root split
                              baseline_runner)
                         (product3 seeds tasks splits)))"

subsection \<open>Selector strategies\<close>

text \<open>\<^verbatim>\<open>selector_jobs_all\<close>: the list \<^verbatim>\<open>jobs\<close> grows by one append per iteration.\<close>

definition selector_jobs_all :: "benchmark \<Rightarrow> selector_config \<Rightarrow> error + selector_job list" where
  "selector_jobs_all self selector_config =
     (let cfg = config self;
          root = folders_root self;
          seeds = seeds cfg;
          times = times_in_mins cfg;
          tasks = openml_tasks cfg;
          splits = data_splits cfg;
          algorithms = algorithms cfg
      in case sc_name selector_config of
           None \<Rightarrow> Inl (KeyError ''name'')
         | Some selector_name \<Rightarrow>
             Inr (fold (\<lambda>(seed, task, split) jobs.
                          let algorithm_jobs =
                                map (\<lambda>algo. SingleAlgorithmJob (env self) seed times task root
                                               split algo single_algorithm_runner)
                                    algorithms;
                              selector_job =
                                SelectorJob (env self) seed times task root split
                                  selector_runner selector_name algorithm_jobs
                          in jobs @ [selector_job])
                       (product3 seeds tasks splits) []))"

text \<open>The three strategies that are still \<^verbatim>\<open># TODO\<close>.\<close>

definition selector_jobs_n_top :: "benchmark \<Rightarrow> selector_config \<Rightarrow> error + selector_job list" where
  "selector_jobs_n_top self selector_config = Inr []"

definition selector_jobs_n_least_overlapping ::
  "benchmark \<Rightarrow> selector_config \<Rightarrow> error + selector_job list" where
  "selector_jobs_n_least_overlapping self selector_config = Inr []"

definition selector_jobs_n_most_coverage ::
  "benchmark \<Rightarrow> selector_config \<Rightarrow> error + selector_job list" where
  "selector_jobs_n_most_coverage self selector_config = Inr []"

text \<open>
  Python's \<^verbatim>\<open>str\<close> of an integer, as the f-string
  \<^verbatim>\<open>f'{selector_config["name"]}_{selection_seed}'\<close> renders the selection seed.
\<close>

definition digit_char :: "nat \<Rightarrow> char" where
  "digit_char d = ''0123456789'' ! d"

fun str_nat :: "nat \<Rightarrow> string" where
  "str_nat n = (if n < 10 then [digit_char n] else str_nat (n div 10) @ [digit_char (n mod 10)])"

declare str_nat.simps [simp del]

definition str_int :: "int \<Rightarrow> string" where
  "str_int i = (if i < 0 then CHR ''-'' # str_nat (nat (- i)) else str_nat (nat i))"

text \<open>
  \<^verbatim>\<open>random.Random\<close> is the standard library's generator and is not part of the
  program. \<^verbatim>\<open>Random(seed).sample(population, k)\<close> builds a fresh generator from
  \<open>seed\<close>, so the list it returns is a function of \<open>seed\<close>, \<open>population\<close> and \<open>k\<close>;
  that function is a parameter of the model. What the library itself checks is written
  out: \<^verbatim>\<open>sample\<close> raises \<^verbatim>\<open>ValueError\<close> unless \<open>0 \<le> k \<le> len(population)\<close>.
\<close>

type_synonym sampler = "int \<Rightarrow> string list \<Rightarrow> nat \<Rightarrow> string list"

definition Random_sample :: "sampler \<Rightarrow> int \<Rightarrow> string list \<Rightarrow> int \<Rightarrow> error + string list" where
  "Random_sample rng seed population k =
     (if 0 \<le> k \<and> k \<le> int (length population)
      then Inr (rng seed population (nat k))
      else Inl ValueError)"

text \<open>
  The list comprehension building \<^verbatim>\<open>selector_names\<close> reads
  \<^verbatim>\<open>selector_config["name"]\<close> once per selection seed: with no selection seed the
  key is never read.
\<close>

definition selector_names :: "selector_config \<Rightarrow> int list \<Rightarrow> error + string list" where
  "selector_names selector_config selection_seeds =
     (if selection_seeds = [] then Inr []
      else case sc_name selector_config of
             None \<Rightarrow> Inl (KeyError ''name'')
           | Some name \<Rightarrow>
               Inr (map (\<lambda>selection_seed. name @ ''_'' @ str_int selection_seed)
                        selection_seeds))"

text \<open>
  The outer loop of \<^verbatim>\<open>selector_jobs_n_random\<close> over
  \<^verbatim>\<open>zip(selection_seeds, selector_names)\<close>, with the list \<^verbatim>\<open>jobs\<close> built so far.
  An exception of \<^verbatim>\<open>rand.sample\<close> leaves the loop and the method.
\<close>

fun n_random_loop ::
  "sampler \<Rightarrow> benchmark \<Rightarrow> int \<Rightarrow> (int \<times> string) list \<Rightarrow> selector_job list
   \<Rightarrow> error + selector_job list" where
  "n_random_loop rng self n_algorithms [] jobs = Inr jobs"
| "n_random_loop rng self n_algorithms ((selection_seed, name) # rest) jobs =
     (let cfg = config self;
          root = folders_root self;
          seeds = seeds cfg;
          times = times_in_mins cfg;
          tasks = openml_tasks cfg;
          splits = data_splits cfg;
          algorithms = algorithms cfg
      in case Random_sample rng (selection_seed * n_algorithms) algorithms n_algorithms of
           Inl e \<Rightarrow> Inl e
         | Inr random_algorithms \<Rightarrow>
             n_random_loop rng self n_algorithms rest
               (fold (\<lambda>(seed, task, split) jobs.
                        let algorithm_jobs =
                              map (\<lambda>algo. SingleAlgorithmJob (env self) seed times task root
                                             split algo single_algorithm_runner)
                                  random_algorithms;
                            selector_job =
                              SelectorJob (env self) seed times task root split
                                selector_runner name algorithm_jobs
                        in jobs @ [selector_job])
                     (product3 seeds tasks splits) jobs))"

definition selector_jobs_n_random ::
  "sampler \<Rightarrow> benchmark \<Rightarrow> selector_config \<Rightarrow> error + selector_job list" where
  "selector_jobs_n_random rng self selector_config =
     (case sc_n selector_config of
        None \<Rightarrow> Inl (KeyError ''n'')
      | Some n_algorithms \<Rightarrow>
          (case sc_selection_seeds selector_config of
             None \<Rightarrow> Inl (KeyError ''selection_seeds'')
           | Some selection_seeds \<Rightarrow>
               (case selector_names selector_config selection_seeds of
                  Inl e \<Rightarrow> Inl e
                | Inr names \<Rightarrow>
                    n_random_loop rng self n_algorithms (zip selection_seeds names) [])))"

subsection \<open>Selector strategy resolver\<close>

text \<open>The dictionary \<^verbatim>\<open>functions\<close> of \<^verbatim>\<open>selector_jobs\<close>, from type tag to bound method
  (\<open>functions\<close> is a reserved word here).\<close>

definition selector_functions ::
  "sampler \<Rightarrow> benchmark \<Rightarrow> string \<rightharpoonup> (selector_config \<Rightarrow> error + selector_job list)" where
  "selector_functions rng self =
     [ ''all'' \<mapsto> selector_jobs_all self,
       ''top_n'' \<mapsto> selector_jobs_n_top self,
       ''n_most_coverage'' \<mapsto> selector_jobs_n_most_coverage self,
       ''n_random_selection'' \<mapsto> selector_jobs_n_random rng self,
       ''n_least_overlapping'' \<mapsto> selector_jobs_n_least_overlapping self ]"

text \<open>
  One pass of the loop body of \<^verbatim>\<open>selector_jobs\<close>: read the type tag, look the strategy
  up, call it on the spec. The value is what \<^verbatim>\<open>jobs += ...\<close> would append.
\<close>

definition get_selector_jobs ::
  "sampler \<Rightarrow> benchmark \<Rightarrow> selector_config \<Rightarrow> error + selector_job list" where
  "get_selector_jobs rng self selector_config =
     (case sc_type selector_config of
        None \<Rightarrow> Inl (KeyError ''type'')
      | Some selector_type \<Rightarrow>
          (case selector_functions rng self selector_type of
             None \<Rightarrow> Inl (KeyError selector_type)
           | Some get_selector \<Rightarrow> get_selector selector_config))"

fun selector_jobs_loop ::
  "sampler \<Rightarrow> benchmark \<Rightarrow> selector_config list \<Rightarrow> selector_job list
   \<Rightarrow> error + selector_job list" where
  "selector_jobs_loop rng self [] jobs = Inr jobs"
| "selector_jobs_loop rng self (selector_config # rest) jobs =
     (case get_selector_jobs rng self selector_config of
        Inl e \<Rightarrow> Inl e
      | Inr produced \<Rightarrow> selector_jobs_loop rng self rest (jobs @ produced))"

definition selector_jobs :: "sampler \<Rightarrow> benchmark \<Rightarrow> error + selector_job list" where
  "selector_jobs rng self = selector_jobs_loop rng self (selectors (config self)) []"

subsection \<open>Job query and filter facade\<close>

text \<open>
  The lifecycle queries \<^verbatim>\<open>job.ready()\<close>, ... are answered by the external execution
  backend. Its state at the time of a call is a record of the seven predicates.
\<close>

record backend =
  ready :: "tpot_job \<Rightarrow> bool"
  failed :: "tpot_job \<Rightarrow> bool"
  blocked :: "tpot_job \<Rightarrow> bool"
  pending :: "tpot_job \<Rightarrow> bool"
  running :: "tpot_job \<Rightarrow> bool"
  complete :: "tpot_job \<Rightarrow> bool"
  in_progress :: "tpot_job \<Rightarrow> bool"

definition job_filters :: "string \<rightharpoonup> (backend \<Rightarrow> tpot_job \<Rightarrow> bool)" where
  "job_filters =
     [ ''ready'' \<mapsto> (\<lambda>be job. ready be job),
       ''failed'' \<mapsto> (\<lambda>be job. failed be job),
       ''blocked'' \<mapsto> (\<lambda>be job. blocked be job),
       ''pending'' \<mapsto> (\<lambda>be job. pending be job),
       ''running'' \<mapsto> (\<lambda>be job. running be job),
       ''complete'' \<mapsto> (\<lambda>be job. complete be job),
       ''in_progress'' \<mapsto> (\<lambda>be job. in_progress be job) ]"

text \<open>
  \<^verbatim>\<open>jobs\<close>. The three collections are computed, in the order of the arguments of
  \<^verbatim>\<open>chain\<close>, before anything is filtered. \<^verbatim>\<open>if filter_by:\<close> is false for
  \<^verbatim>\<open>None\<close> and for the empty string.
\<close>

definition jobs :: "sampler \<Rightarrow> backend \<Rightarrow> benchmark \<Rightarrow> string option \<Rightarrow> error + tpot_job list" where
  "jobs rng be self filter_by =
     (let algorithm_js = algorithm_jobs self
      in case selector_jobs rng self of
           Inl e \<Rightarrow> Inl e
         | Inr selector_js \<Rightarrow>
             (case baseline_jobs self of
                Inl e \<Rightarrow> Inl e
              | Inr baseline_js \<Rightarrow>
                  let job_iter = map Algorithm algorithm_js @ map Selector selector_js
                                 @ map Baseline baseline_js
                  in case filter_by of
                       None \<Rightarrow> Inr job_iter
                     | Some name \<Rightarrow>
                         if name = [] then Inr job_iter
                         else (case job_filters name of
                                 None \<Rightarrow> Inl (KeyError name)
                               | Some job_filter \<Rightarrow> Inr (filter (job_filter be) job_iter))))"

section \<open>Example inputs\<close>

text \<open>
  A small configuration in the shape of \<^verbatim>\<open>default_config\<close> (two seeds, one task, one
  split, three algorithms, scale 3), on which the model is run below.
\<close>

definition ex_selector_all :: selector_config where
  "ex_selector_all =
     \<lparr> sc_name = Some ''ALL'', sc_type = Some ''all'', sc_n = None,
       sc_selection_seeds = None \<rparr>"

definition ex_selector_top :: selector_config where
  "ex_selector_top =
     \<lparr> sc_name = Some ''TOP3'', sc_type = Some ''top_n'', sc_n = Some 3,
       sc_selection_seeds = None \<rparr>"

definition ex_selector_random :: selector_config where
  "ex_selector_random =
     \<lparr> sc_name = Some ''RAN2'', sc_type = Some ''n_random_selection'', sc_n = Some 2,
       sc_selection_seeds = Some [1, 2] \<rparr>"

definition ex_config :: benchmark_config where
  "ex_config =
     \<lparr> id_cfg = ''tpot_bench'',
       dir = ''/data'',
       username = ''eb130475'',
       seeds = [5, 7],
       times_in_mins = [30, 60],
       openml_tasks = [3],
       data_splits = [(0.5, 0.3, 0.2)],
       algorithms = [''NB'', ''TR'', ''KNN''],
       selectors = [ex_selector_all, ex_selector_top, ex_selector_random],
       baselines = [''scale'' \<mapsto> 3] \<rparr>"

definition ex_abspath_join :: "string \<Rightarrow> string \<Rightarrow> string" where
  "ex_abspath_join d i = d @ ''/'' @ i"

definition ex_benchmark :: benchmark where
  "ex_benchmark = Benchmark_init ex_abspath_join ex_config"

text \<open>
  A stand-in for the library's generator, used only to run the examples: it rotates the
  population by the seed and takes the first \<open>k\<close> elements.
\<close>

definition ex_sampler :: sampler where
  "ex_sampler seed population k =
     take k (rotate (nat (seed mod int (length population))) population)"

text \<open>A backend state in which exactly the algorithm jobs of seed 5 are complete.\<close>

definition ex_backend :: backend where
  "ex_backend =
     \<lparr> ready = (\<lambda>job. False),
       failed = (\<lambda>job. False),
       blocked = (\<lambda>job. False),
       pending = (\<lambda>job. False),
       running = (\<lambda>job. False),
       complete = (\<lambda>job. case job of Algorithm a \<Rightarrow> saj_seed a = 5 | _ \<Rightarrow> False),
       in_progress = (\<lambda>job. False) \<rparr>"

text \<open>
  Variations of the example: a random selector that asks for five of the three algorithms,
  the same with no selection seed, and a selector whose type tag is not a key of
  \<^verbatim>\<open>functions\<close>.
\<close>

definition ex_selector_many :: selector_config where
  "ex_selector_many =
     \<lparr> sc_name = Some ''RAN5'', sc_type = Some ''n_random_selection'', sc_n = Some 5,
       sc_selection_seeds = Some [1, 2, 3] \<rparr>"

definition ex_selector_no_seeds :: selector_config where
  "ex_selector_no_seeds =
     \<lparr> sc_name = Some ''RAN5'', sc_type = Some ''n_random_selection'', sc_n = Some 5,
       sc_selection_seeds = Some [] \<rparr>"

definition ex_selector_bogus :: selector_config where
  "ex_selector_bogus =
     \<lparr> sc_name = Some ''BOGUS'', sc_type = Some ''bogus'', sc_n = None,
       sc_selection_seeds = None \<rparr>"

definition ex_benchmark_many :: benchmark where
  "ex_benchmark_many =
     Benchmark_init ex_abspath_join
       (ex_config \<lparr> selectors := [ex_selector_all, ex_selector_many] \<rparr>)"

definition ex_benchmark_bogus :: benchmark where
  "ex_benchmark_bogus =
     Benchmark_init ex_abspath_join
       (ex_config \<lparr> selectors := [ex_selector_all, ex_selector_bogus, ex_selector_random] \<rparr>)"

text \<open>Shorthands for the jobs of the example: all share user, budgets, task, root and split.\<close>

definition ex_dep :: "int \<Rightarrow> string \<Rightarrow> single_algorithm_job" where
  "ex_dep seed algo =
     SingleAlgorithmJob ''eb130475'' seed [30, 60] 3 ''/data/tpot_bench'' (0.5, 0.3, 0.2) algo
       single_algorithm_runner"

definition ex_sel :: "int \<Rightarrow> string \<Rightarrow> string list \<Rightarrow> selector_job" where
  "ex_sel seed name algos =
     SelectorJob ''eb130475'' seed [30, 60] 3 ''/data/tpot_bench'' (0.5, 0.3, 0.2)
       selector_runner name (map (ex_dep seed) algos)"

definition ex_base :: "int \<Rightarrow> baseline_job" where
  "ex_base seed =
     BaselineJob ''eb130475'' seed {30, 60, 90, 120, 180} 3 ''/data/tpot_bench''
       (0.5, 0.3, 0.2) baseline_runner"

section \<open>Lists built by nested loops\<close>

text \<open>
  Indexing a concatenation of blocks of equal length: block \<open>i\<close>, offset \<open>j\<close> sits at
  position \<open>i * n + j\<close>. This is what "seed outermost, algorithm innermost" means for the
  position of a job in the list.
\<close>

lemma length_concat_map_const:
  "(\<And>x. x \<in> set xs \<Longrightarrow> length (f x) = n) \<Longrightarrow> length (concat (map f xs)) = length xs * n"
  by (induction xs) simp_all

lemma nth_concat_map_const:
  "(\<And>x. x \<in> set xs \<Longrightarrow> length (f x) = n) \<Longrightarrow> i < length xs \<Longrightarrow> j < n \<Longrightarrow>
   concat (map f xs) ! (i * n + j) = f (xs ! i) ! j"
proof (induction xs arbitrary: i)
  case Nil
  then show ?case by simp
next
  case (Cons x xs)
  have len: "length (f x) = n" using Cons.prems(1) by simp
  show ?case
  proof (cases i)
    case 0
    then show ?thesis using len Cons.prems(3) by (simp add: nth_append)
  next
    case (Suc i')
    have "concat (map f xs) ! (i' * n + j) = f (xs ! i') ! j"
      using Cons.IH [of i'] Cons.prems Suc by simp
    then show ?thesis using Suc len by (simp add: nth_append)
  qed
qed

lemma length_product3:
  "length (product3 xs ys zs) = length xs * length ys * length zs"
proof -
  have "length (product3 xs ys zs) = length xs * (length ys * length zs)"
    unfolding product3_def
    by (rule length_concat_map_const) (simp add: length_concat_map_const)
  then show ?thesis by (simp add: mult.assoc)
qed

lemma nth_product3:
  assumes "i < length xs" "j < length ys" "k < length zs"
  shows "product3 xs ys zs ! ((i * length ys + j) * length zs + k) = (xs ! i, ys ! j, zs ! k)"
proof -
  let ?g = "\<lambda>x. concat (map (\<lambda>y. map (\<lambda>z. (x, y, z)) zs) ys)"
  have len: "\<And>x. length (?g x) = length ys * length zs"
    by (rule length_concat_map_const) simp
  have inner: "j * length zs + k < length ys * length zs"
  proof -
    have "j * length zs + k < Suc j * length zs" using assms(3) by simp
    also have "\<dots> \<le> length ys * length zs"
      using assms(2) by (intro mult_le_mono1) simp
    finally show ?thesis .
  qed
  have idx: "(i * length ys + j) * length zs + k = i * (length ys * length zs) + (j * length zs + k)"
    by (simp add: algebra_simps)
  have "concat (map ?g xs) ! (i * (length ys * length zs) + (j * length zs + k))
        = ?g (xs ! i) ! (j * length zs + k)"
    using len assms(1) inner by (intro nth_concat_map_const) auto
  also have "\<dots> = map (\<lambda>z. (xs ! i, ys ! j, z)) zs ! k"
    using assms(2,3) by (intro nth_concat_map_const) auto
  also have "\<dots> = (xs ! i, ys ! j, zs ! k)" using assms(3) by simp
  finally show ?thesis unfolding product3_def idx by simp
qed

lemma product4_product3:
  "product4 xs ys zs ws = concat (map (\<lambda>x. map (\<lambda>(y, z, w). (x, y, z, w)) (product3 ys zs ws)) xs)"
  unfolding product4_def product3_def
  by (simp add: map_concat comp_def)

lemma length_product4:
  "length (product4 xs ys zs ws) = length xs * length ys * length zs * length ws"
proof -
  have "length (product4 xs ys zs ws) = length xs * (length ys * length zs * length ws)"
    unfolding product4_product3
    by (rule length_concat_map_const) (simp add: length_product3)
  then show ?thesis by (simp add: mult.assoc)
qed

lemma nth_product4:
  assumes "i < length xs" "j < length ys" "k < length zs" "l < length ws"
  shows "product4 xs ys zs ws ! (((i * length ys + j) * length zs + k) * length ws + l)
         = (xs ! i, ys ! j, zs ! k, ws ! l)"
proof -
  let ?m = "length ys * length zs * length ws"
  let ?r = "(j * length zs + k) * length ws + l"
  let ?g = "\<lambda>x. map (\<lambda>(y, z, w). (x, y, z, w)) (product3 ys zs ws)"
  have len: "\<And>x. length (?g x) = ?m" by (simp add: length_product3)
  have "j * length zs + k < Suc j * length zs" using assms(3) by simp
  also have "\<dots> \<le> length ys * length zs" using assms(2) by (intro mult_le_mono1) simp
  finally have jk: "j * length zs + k < length ys * length zs" .
  have "?r < Suc (j * length zs + k) * length ws" using assms(4) by simp
  also have "\<dots> \<le> ?m" using jk by (intro mult_le_mono1) simp
  finally have r: "?r < ?m" .
  have idx: "((i * length ys + j) * length zs + k) * length ws + l = i * ?m + ?r"
    by (simp add: algebra_simps)
  have "concat (map ?g xs) ! (i * ?m + ?r) = ?g (xs ! i) ! ?r"
    using len assms(1) r by (intro nth_concat_map_const) auto
  also have "\<dots> = (xs ! i, ys ! j, zs ! k, ws ! l)"
    using r assms(2-4) by (simp add: length_product3 nth_product3)
  finally show ?thesis unfolding product4_product3 idx .
qed

lemma product3_index_bound:
  assumes "i < length xs" "j < length ys" "k < length zs"
  shows "(i * length ys + j) * length zs + k < length xs * length ys * length zs"
proof -
  have "i * length ys + j < Suc i * length ys" using assms(2) by simp
  also have "\<dots> \<le> length xs * length ys" using assms(1) by (intro mult_le_mono1) simp
  finally have "Suc (i * length ys + j) * length zs \<le> length xs * length ys * length zs"
    by (intro mult_le_mono1) simp
  moreover have "(i * length ys + j) * length zs + k < Suc (i * length ys + j) * length zs"
    using assms(3) by simp
  ultimately show ?thesis by linarith
qed

lemma product4_index_bound:
  assumes "i < length xs" "j < length ys" "k < length zs" "l < length ws"
  shows "((i * length ys + j) * length zs + k) * length ws + l
         < length xs * length ys * length zs * length ws"
proof -
  have "Suc ((i * length ys + j) * length zs + k) * length ws
        \<le> length xs * length ys * length zs * length ws"
    using product3_index_bound [OF assms(1-3)] by (intro mult_le_mono1) simp
  moreover have "((i * length ys + j) * length zs + k) * length ws + l
        < Suc ((i * length ys + j) * length zs + k) * length ws"
    using assms(4) by simp
  ultimately show ?thesis by linarith
qed

section \<open>The example benchmark\<close>

lemma ex_benchmark_fields:
  "config ex_benchmark = ex_config"
  "env ex_benchmark = ''eb130475''"
  "folders_root ex_benchmark = ''/data/tpot_bench''"
  by (simp_all add: ex_benchmark_def Benchmark_init_def ex_config_def ex_abspath_join_def)

section \<open>Leaf job factories: algorithm jobs\<close>

lemma length_algorithm_jobs:
  "length (algorithm_jobs self)
     = length (seeds (config self)) * length (openml_tasks (config self))
       * length (data_splits (config self)) * length (algorithms (config self))"
  by (simp add: algorithm_jobs_def Let_def length_product4)

lemma nth_algorithm_jobs:
  assumes "i < length (seeds (config self))" "j < length (openml_tasks (config self))"
    "k < length (data_splits (config self))" "l < length (algorithms (config self))"
  shows "algorithm_jobs self
           ! (((i * length (openml_tasks (config self)) + j)
                 * length (data_splits (config self)) + k)
                * length (algorithms (config self)) + l)
         = SingleAlgorithmJob (env self) (seeds (config self) ! i) (times_in_mins (config self))
             (openml_tasks (config self) ! j) (folders_root self)
             (data_splits (config self) ! k) (algorithms (config self) ! l)
             single_algorithm_runner"
  using product4_index_bound [OF assms]
  by (simp add: algorithm_jobs_def Let_def length_product4 nth_product4 [OF assms])

text \<open>
  Claim C1. \<^verbatim>\<open>algorithm_jobs\<close> returns one job per element of
  \<open>seeds \<times> tasks \<times> splits \<times> algorithms\<close>: the list has
  \<open>|seeds| * |tasks| * |splits| * |algorithms|\<close> elements, and for every choice of positions
  \<open>i, j, k, l\<close> in the four lists the job at position
  \<open>((i * |tasks| + j) * |splits| + k) * |algorithms| + l\<close> (seed outermost, algorithm
  innermost) is the job of seed \<open>i\<close>, task \<open>j\<close>, split \<open>k\<close> and algorithm \<open>l\<close>, carrying the
  whole configured list of time budgets. When one of the four lists is empty the job list is
  empty. Length and positions together determine the list.
\<close>

theorem algorithm_jobs_product:
  "length (algorithm_jobs self)
     = length (seeds (config self)) * length (openml_tasks (config self))
       * length (data_splits (config self)) * length (algorithms (config self))
   \<and> (\<forall>i j k l.
         i < length (seeds (config self)) \<longrightarrow> j < length (openml_tasks (config self)) \<longrightarrow>
         k < length (data_splits (config self)) \<longrightarrow> l < length (algorithms (config self)) \<longrightarrow>
         algorithm_jobs self
           ! (((i * length (openml_tasks (config self)) + j)
                 * length (data_splits (config self)) + k)
                * length (algorithms (config self)) + l)
         = SingleAlgorithmJob (env self) (seeds (config self) ! i) (times_in_mins (config self))
             (openml_tasks (config self) ! j) (folders_root self)
             (data_splits (config self) ! k) (algorithms (config self) ! l)
             single_algorithm_runner)
   \<and> (seeds (config self) = [] \<or> openml_tasks (config self) = []
        \<or> data_splits (config self) = [] \<or> algorithms (config self) = []
        \<longrightarrow> algorithm_jobs self = [])"
proof (intro conjI allI impI)
  show "length (algorithm_jobs self)
     = length (seeds (config self)) * length (openml_tasks (config self))
       * length (data_splits (config self)) * length (algorithms (config self))"
    by (rule length_algorithm_jobs)
next
  assume "seeds (config self) = [] \<or> openml_tasks (config self) = []
        \<or> data_splits (config self) = [] \<or> algorithms (config self) = []"
  then have "length (algorithm_jobs self) = 0"
    unfolding length_algorithm_jobs by auto
  then show "algorithm_jobs self = []" by simp
next
  fix i j k l
  assume "i < length (seeds (config self))" "j < length (openml_tasks (config self))"
    "k < length (data_splits (config self))" "l < length (algorithms (config self))"
  then show "algorithm_jobs self
           ! (((i * length (openml_tasks (config self)) + j)
                 * length (data_splits (config self)) + k)
                * length (algorithms (config self)) + l)
         = SingleAlgorithmJob (env self) (seeds (config self) ! i) (times_in_mins (config self))
             (openml_tasks (config self) ! j) (folders_root self)
             (data_splits (config self) ! k) (algorithms (config self) ! l)
             single_algorithm_runner"
    by (rule nth_algorithm_jobs)
qed

theorem algorithm_jobs_product_witness:
  "length (algorithm_jobs ex_benchmark) = 6
   \<and> algorithm_jobs ex_benchmark ! 4
       = SingleAlgorithmJob ''eb130475'' 7 [30, 60] 3 ''/data/tpot_bench'' (0.5, 0.3, 0.2) ''TR''
           single_algorithm_runner
   \<and> algorithm_jobs (ex_benchmark \<lparr> config := ex_config \<lparr> algorithms := [] \<rparr> \<rparr>) = []"
proof -
  note t = algorithm_jobs_product [of ex_benchmark, unfolded ex_benchmark_fields]
  have "length (algorithm_jobs ex_benchmark) = 6"
    using t [THEN conjunct1] by (simp add: ex_config_def)
  moreover have "algorithm_jobs ex_benchmark ! 4
       = SingleAlgorithmJob ''eb130475'' 7 [30, 60] 3 ''/data/tpot_bench'' (0.5, 0.3, 0.2) ''TR''
           single_algorithm_runner"
    using t [THEN conjunct2, THEN conjunct1, rule_format, of 1 0 0 1]
    by (simp add: ex_config_def eval_nat_numeral)
  moreover have "algorithm_jobs (ex_benchmark \<lparr> config := ex_config \<lparr> algorithms := [] \<rparr> \<rparr>) = []"
    using algorithm_jobs_product
            [of "ex_benchmark \<lparr> config := ex_config \<lparr> algorithms := [] \<rparr> \<rparr>",
             THEN conjunct2, THEN conjunct2]
    by simp
  ultimately show ?thesis by blast
qed

section \<open>Leaf job factories: baseline jobs and the rescaled time budgets\<close>

lemma fold_union_acc:
  "fold (\<lambda>i acc. acc \<union> f i) xs S = S \<union> (\<Union>i\<in>set xs. f i)"
  by (induction xs arbitrary: S) auto

text \<open>
  Claim C2. When the configuration gives the scale \<open>S\<close>, \<^verbatim>\<open>baseline_jobs\<close> returns one
  job per element of \<open>seeds \<times> tasks \<times> splits\<close>, in the order of the nested loops, and every
  job carries the set \<open>\<Union>m\<in>{1..S}. {t * m | t \<in> T}\<close> of the configured time budgets \<open>T\<close>
  multiplied by every factor from 1 to \<open>S\<close>. (The statement needs no bound on \<open>S\<close>: for
  \<open>S < 1\<close> the interval and the set are empty.) For \<open>T = [30, 60]\<close> and \<open>S = 3\<close> the set is
  \<open>{30, 60, 90, 120, 180}\<close>: five values, since \<open>60 = 30 * 2 = 60 * 1\<close> and no product is
  150.
\<close>

theorem baseline_jobs_rescaled:
  assumes "baselines (config self) ''scale'' = Some S"
  shows "\<exists>js. baseline_jobs self = Inr js
     \<and> length js = length (seeds (config self)) * length (openml_tasks (config self))
                   * length (data_splits (config self))
     \<and> (\<forall>i j k.
           i < length (seeds (config self)) \<longrightarrow> j < length (openml_tasks (config self)) \<longrightarrow>
           k < length (data_splits (config self)) \<longrightarrow>
           js ! ((i * length (openml_tasks (config self)) + j)
                   * length (data_splits (config self)) + k)
           = BaselineJob (env self) (seeds (config self) ! i)
               (\<Union>m\<in>{1..S}. (\<lambda>t. t * m) ` set (times_in_mins (config self)))
               (openml_tasks (config self) ! j) (folders_root self)
               (data_splits (config self) ! k) baseline_runner)"
proof -
  let ?ss = "seeds (config self)" and ?ts = "openml_tasks (config self)"
  let ?ds = "data_splits (config self)"
  let ?bt = "\<Union>m\<in>{1..S}. (\<lambda>t. t * m) ` set (times_in_mins (config self))"
  let ?js = "map (\<lambda>(seed, task, split).
                    BaselineJob (env self) seed ?bt task (folders_root self) split baseline_runner)
                 (product3 ?ss ?ts ?ds)"
  have eq: "baseline_jobs self = Inr ?js"
    using assms by (simp add: baseline_jobs_def Let_def fold_union_acc)
  have len: "length ?js = length ?ss * length ?ts * length ?ds"
    by (simp add: length_product3)
  have nth: "?js ! ((i * length ?ts + j) * length ?ds + k)
             = BaselineJob (env self) (?ss ! i) ?bt (?ts ! j) (folders_root self) (?ds ! k)
                 baseline_runner"
    if "i < length ?ss" "j < length ?ts" "k < length ?ds" for i j k
    using product3_index_bound [OF that] by (simp add: length_product3 nth_product3 [OF that])
  show ?thesis using eq len nth by blast
qed

theorem baseline_jobs_rescaled_witness:
  "\<exists>js. baseline_jobs ex_benchmark = Inr js \<and> length js = 2
     \<and> js ! 1 = BaselineJob ''eb130475'' 7 {30, 60, 90, 120, 180} 3 ''/data/tpot_bench''
                  (0.5, 0.3, 0.2) baseline_runner
     \<and> card (bj_times (js ! 1)) = 5"
proof -
  have sc: "baselines (config ex_benchmark) ''scale'' = Some 3"
    by (simp add: ex_benchmark_fields ex_config_def)
  have i3: "{1..3::int} = {1, 2, 3}"
    unfolding set_upto [symmetric] by (simp add: upto.simps)
  have bt: "(\<Union>x\<in>{1..3::int}. {30 * x, 60 * x}) = {30, 60, 90, 120, 180}"
    unfolding i3 by (simp add: insert_commute)
  from baseline_jobs_rescaled [OF sc] obtain js where
    js: "baseline_jobs ex_benchmark = Inr js"
      "length js = length (seeds (config ex_benchmark)) * length (openml_tasks (config ex_benchmark))
                   * length (data_splits (config ex_benchmark))"
    and nth: "\<And>i j k. i < length (seeds (config ex_benchmark)) \<Longrightarrow>
           j < length (openml_tasks (config ex_benchmark)) \<Longrightarrow>
           k < length (data_splits (config ex_benchmark)) \<Longrightarrow>
           js ! ((i * length (openml_tasks (config ex_benchmark)) + j)
                   * length (data_splits (config ex_benchmark)) + k)
           = BaselineJob (env ex_benchmark) (seeds (config ex_benchmark) ! i)
               (\<Union>m\<in>{1..3}. (\<lambda>t. t * m) ` set (times_in_mins (config ex_benchmark)))
               (openml_tasks (config ex_benchmark) ! j) (folders_root ex_benchmark)
               (data_splits (config ex_benchmark) ! k) baseline_runner"
    by blast
  have l: "length js = 2" using js(2) by (simp add: ex_benchmark_fields ex_config_def)
  have "js ! ((1 * length (openml_tasks (config ex_benchmark)) + 0)
                   * length (data_splits (config ex_benchmark)) + 0)
        = BaselineJob ''eb130475'' 7 {30, 60, 90, 120, 180} 3 ''/data/tpot_bench''
                  (0.5, 0.3, 0.2) baseline_runner"
    by (subst nth) (simp_all add: ex_benchmark_fields ex_config_def bt)
  then have n: "js ! 1 = BaselineJob ''eb130475'' 7 {30, 60, 90, 120, 180} 3 ''/data/tpot_bench''
                  (0.5, 0.3, 0.2) baseline_runner"
    by (simp add: ex_benchmark_fields ex_config_def)
  have "card (bj_times (js ! 1)) = 5" unfolding n by simp
  with js(1) l n show ?thesis by blast
qed


text \<open>
  The example configuration has \<open>T = [30, 60]\<close> and \<open>S = 3\<close>. Its baseline jobs carry a set of
  five budgets, and 150 is not among them.
\<close>

theorem baseline_jobs_example_counterexample:
  "baseline_jobs ex_benchmark
     = Inr [BaselineJob ''eb130475'' 5 {30, 60, 90, 120, 180} 3 ''/data/tpot_bench''
              (0.5, 0.3, 0.2) baseline_runner,
            BaselineJob ''eb130475'' 7 {30, 60, 90, 120, 180} 3 ''/data/tpot_bench''
              (0.5, 0.3, 0.2) baseline_runner]
   \<and> times_in_mins (config ex_benchmark) = [30, 60]
   \<and> baselines (config ex_benchmark) ''scale'' = Some 3
   \<and> {30, 60, 90, 120, 180} \<noteq> {30, 60, 90, 120, 150, 180 :: int}
   \<and> card {30, 60, 90, 120, 180 :: int} = 5"
proof -
  have "[1..3::int] = [1, 2, 3]" by (simp add: upto.simps)
  then have "baseline_jobs ex_benchmark
     = Inr [BaselineJob ''eb130475'' 5 {30, 60, 90, 120, 180} 3 ''/data/tpot_bench''
              (0.5, 0.3, 0.2) baseline_runner,
            BaselineJob ''eb130475'' 7 {30, 60, 90, 120, 180} 3 ''/data/tpot_bench''
              (0.5, 0.3, 0.2) baseline_runner]"
    by (simp add: baseline_jobs_def ex_benchmark_fields ex_config_def product3_def Let_def
          insert_commute)
  moreover have "{30, 60, 90, 120, 180} \<noteq> {30, 60, 90, 120, 150, 180 :: int}"
  proof
    assume "{30, 60, 90, 120, 180} = {30, 60, 90, 120, 150, 180 :: int}"
    then have "(150::int) \<in> {30, 60, 90, 120, 180}" by blast
    then show False by simp
  qed
  ultimately show ?thesis by (simp add: ex_benchmark_fields ex_config_def)
qed

section \<open>The strategy "all"\<close>

lemma fold_append_triple:
  "fold (\<lambda>(a, b, c) acc. acc @ [f a b c]) xs acc0 = acc0 @ map (\<lambda>(a, b, c). f a b c) xs"
  by (induction xs arbitrary: acc0) auto

lemma selector_jobs_all_map:
  "selector_jobs_all self sc =
     (case sc_name sc of
        None \<Rightarrow> Inl (KeyError ''name'')
      | Some nm \<Rightarrow>
          Inr (map (\<lambda>(seed, task, split).
                      SelectorJob (env self) seed (times_in_mins (config self)) task
                        (folders_root self) split selector_runner nm
                        (map (\<lambda>algo. SingleAlgorithmJob (env self) seed
                                       (times_in_mins (config self)) task (folders_root self)
                                       split algo single_algorithm_runner)
                             (algorithms (config self))))
                   (product3 (seeds (config self)) (openml_tasks (config self))
                      (data_splits (config self)))))"
  by (simp add: selector_jobs_all_def Let_def fold_append_triple split: option.split)

text \<open>
  Claim C4. For a spec that has a name, the strategy "all" returns one selector job per
  element of \<open>seeds \<times> tasks \<times> splits\<close>, in the order of the nested loops. The job of seed
  \<open>i\<close>, task \<open>j\<close> and split \<open>k\<close> depends on one algorithm job per configured algorithm, in
  the configured order, each built from the same seed, task, split, time budgets, root and
  runner; its \<open>l\<close>-th dependency is equal, argument by argument, to the job that the leaf
  factory \<^verbatim>\<open>algorithm_jobs\<close> puts at position
  \<open>((i * |tasks| + j) * |splits| + k) * |algorithms| + l\<close>. (Jobs are compared by their
  constructor arguments; that the dependencies are new objects is not visible in them.)
\<close>

theorem selector_jobs_all_dependencies:
  assumes "sc_name sc = Some nm"
  shows "\<exists>js. selector_jobs_all self sc = Inr js
     \<and> length js = length (seeds (config self)) * length (openml_tasks (config self))
                   * length (data_splits (config self))
     \<and> (\<forall>i j k.
           i < length (seeds (config self)) \<longrightarrow> j < length (openml_tasks (config self)) \<longrightarrow>
           k < length (data_splits (config self)) \<longrightarrow>
           js ! ((i * length (openml_tasks (config self)) + j)
                   * length (data_splits (config self)) + k)
             = SelectorJob (env self) (seeds (config self) ! i) (times_in_mins (config self))
                 (openml_tasks (config self) ! j) (folders_root self)
                 (data_splits (config self) ! k) selector_runner nm
                 (map (\<lambda>algo. SingleAlgorithmJob (env self) (seeds (config self) ! i)
                                (times_in_mins (config self)) (openml_tasks (config self) ! j)
                                (folders_root self) (data_splits (config self) ! k) algo
                                single_algorithm_runner)
                      (algorithms (config self)))
           \<and> length (sj_algorithm_jobs
                        (js ! ((i * length (openml_tasks (config self)) + j)
                                 * length (data_splits (config self)) + k)))
               = length (algorithms (config self))
           \<and> (\<forall>l < length (algorithms (config self)).
                 sj_algorithm_jobs
                   (js ! ((i * length (openml_tasks (config self)) + j)
                            * length (data_splits (config self)) + k)) ! l
                 = algorithm_jobs self
                     ! (((i * length (openml_tasks (config self)) + j)
                           * length (data_splits (config self)) + k)
                          * length (algorithms (config self)) + l)))"
proof -
  let ?ss = "seeds (config self)" and ?ts = "openml_tasks (config self)"
  let ?ds = "data_splits (config self)" and ?as = "algorithms (config self)"
  let ?dep = "\<lambda>seed task split algo. SingleAlgorithmJob (env self) seed
                 (times_in_mins (config self)) task (folders_root self) split algo
                 single_algorithm_runner"
  let ?job = "\<lambda>seed task split. SelectorJob (env self) seed (times_in_mins (config self)) task
                 (folders_root self) split selector_runner nm (map (?dep seed task split) ?as)"
  let ?js = "map (\<lambda>(seed, task, split). ?job seed task split) (product3 ?ss ?ts ?ds)"
  have eq: "selector_jobs_all self sc = Inr ?js"
    using assms by (simp add: selector_jobs_all_map)
  have len: "length ?js = length ?ss * length ?ts * length ?ds"
    by (simp add: length_product3)
  have nth: "?js ! ((i * length ?ts + j) * length ?ds + k) = ?job (?ss ! i) (?ts ! j) (?ds ! k)"
    if "i < length ?ss" "j < length ?ts" "k < length ?ds" for i j k
    using product3_index_bound [OF that] by (simp add: length_product3 nth_product3 [OF that])
  have dep: "sj_algorithm_jobs (?js ! ((i * length ?ts + j) * length ?ds + k)) ! l
             = algorithm_jobs self ! (((i * length ?ts + j) * length ?ds + k) * length ?as + l)"
    if "i < length ?ss" "j < length ?ts" "k < length ?ds" "l < length ?as" for i j k l
    using that by (simp add: nth [OF that(1-3)] nth_algorithm_jobs [OF that])
  show ?thesis
  proof (intro exI conjI allI impI)
    show "selector_jobs_all self sc = Inr ?js" by (rule eq)
    show "length ?js = length ?ss * length ?ts * length ?ds" by (rule len)
  next
    fix i j k
    assume b: "i < length ?ss" "j < length ?ts" "k < length ?ds"
    show "?js ! ((i * length ?ts + j) * length ?ds + k) = ?job (?ss ! i) (?ts ! j) (?ds ! k)"
      by (rule nth [OF b])
    show "length (sj_algorithm_jobs (?js ! ((i * length ?ts + j) * length ?ds + k)))
          = length ?as"
      by (simp add: nth [OF b])
    fix l
    assume "l < length ?as"
    then show "sj_algorithm_jobs (?js ! ((i * length ?ts + j) * length ?ds + k)) ! l
             = algorithm_jobs self ! (((i * length ?ts + j) * length ?ds + k) * length ?as + l)"
      by (rule dep [OF b])
  qed
qed


theorem selector_jobs_all_dependencies_witness:
  "\<exists>js. selector_jobs_all ex_benchmark ex_selector_all = Inr js \<and> length js = 2
     \<and> js ! 1 = SelectorJob ''eb130475'' 7 [30, 60] 3 ''/data/tpot_bench'' (0.5, 0.3, 0.2)
                  selector_runner ''ALL''
                  [SingleAlgorithmJob ''eb130475'' 7 [30, 60] 3 ''/data/tpot_bench''
                     (0.5, 0.3, 0.2) ''NB'' single_algorithm_runner,
                   SingleAlgorithmJob ''eb130475'' 7 [30, 60] 3 ''/data/tpot_bench''
                     (0.5, 0.3, 0.2) ''TR'' single_algorithm_runner,
                   SingleAlgorithmJob ''eb130475'' 7 [30, 60] 3 ''/data/tpot_bench''
                     (0.5, 0.3, 0.2) ''KNN'' single_algorithm_runner]
     \<and> sj_algorithm_jobs (js ! 1) ! 2 = algorithm_jobs ex_benchmark ! 5"
proof -
  have nm: "sc_name ex_selector_all = Some ''ALL''" by (simp add: ex_selector_all_def)
  from selector_jobs_all_dependencies [OF nm, of ex_benchmark, unfolded ex_benchmark_fields]
  obtain js where
    js: "selector_jobs_all ex_benchmark ex_selector_all = Inr js"
    and len: "length js = length (seeds ex_config) * length (openml_tasks ex_config)
                          * length (data_splits ex_config)"
    and nth: "\<forall>i j k.
           i < length (seeds ex_config) \<longrightarrow> j < length (openml_tasks ex_config) \<longrightarrow>
           k < length (data_splits ex_config) \<longrightarrow>
           js ! ((i * length (openml_tasks ex_config) + j) * length (data_splits ex_config) + k)
             = SelectorJob ''eb130475'' (seeds ex_config ! i) (times_in_mins ex_config)
                 (openml_tasks ex_config ! j) ''/data/tpot_bench''
                 (data_splits ex_config ! k) selector_runner ''ALL''
                 (map (\<lambda>algo. SingleAlgorithmJob ''eb130475'' (seeds ex_config ! i)
                                (times_in_mins ex_config) (openml_tasks ex_config ! j)
                                ''/data/tpot_bench'' (data_splits ex_config ! k) algo
                                single_algorithm_runner)
                      (algorithms ex_config))
           \<and> length (sj_algorithm_jobs
                        (js ! ((i * length (openml_tasks ex_config) + j)
                                 * length (data_splits ex_config) + k)))
               = length (algorithms ex_config)
           \<and> (\<forall>l < length (algorithms ex_config).
                 sj_algorithm_jobs
                   (js ! ((i * length (openml_tasks ex_config) + j)
                            * length (data_splits ex_config) + k)) ! l
                 = algorithm_jobs ex_benchmark
                     ! (((i * length (openml_tasks ex_config) + j)
                           * length (data_splits ex_config) + k)
                          * length (algorithms ex_config) + l))"
    by blast
  have l2: "length js = 2" using len by (simp add: ex_config_def)
  note n = nth [rule_format, of 1 0 0]
  have j1: "js ! 1 = SelectorJob ''eb130475'' 7 [30, 60] 3 ''/data/tpot_bench'' (0.5, 0.3, 0.2)
                  selector_runner ''ALL''
                  [SingleAlgorithmJob ''eb130475'' 7 [30, 60] 3 ''/data/tpot_bench''
                     (0.5, 0.3, 0.2) ''NB'' single_algorithm_runner,
                   SingleAlgorithmJob ''eb130475'' 7 [30, 60] 3 ''/data/tpot_bench''
                     (0.5, 0.3, 0.2) ''TR'' single_algorithm_runner,
                   SingleAlgorithmJob ''eb130475'' 7 [30, 60] 3 ''/data/tpot_bench''
                     (0.5, 0.3, 0.2) ''KNN'' single_algorithm_runner]"
    using n [THEN conjunct1] by (simp add: ex_config_def)
  have d: "sj_algorithm_jobs (js ! 1) ! 2 = algorithm_jobs ex_benchmark ! 5"
    using n [THEN conjunct2, THEN conjunct2, rule_format, of 2]
    by (simp add: ex_config_def eval_nat_numeral)
  from js l2 j1 d show ?thesis by blast
qed

section \<open>The strategy "n\_random\_selection"\<close>

lemma Random_sample_ok:
  "0 \<le> k \<Longrightarrow> k \<le> int (length population) \<Longrightarrow>
   Random_sample rng seed population k = Inr (rng seed population (nat k))"
  by (simp add: Random_sample_def)

lemma Random_sample_too_large:
  "int (length population) < k \<Longrightarrow> Random_sample rng seed population k = Inl ValueError"
  by (simp add: Random_sample_def)

lemma n_random_loop_ok:
  assumes "0 \<le> n" "n \<le> int (length (algorithms (config self)))"
  shows "n_random_loop rng self n zs acc0 =
     Inr (acc0 @ concat (map (\<lambda>(selection_seed, name).
            map (\<lambda>(seed, task, split).
                   SelectorJob (env self) seed (times_in_mins (config self)) task
                     (folders_root self) split selector_runner name
                     (map (\<lambda>algo. SingleAlgorithmJob (env self) seed
                                    (times_in_mins (config self)) task (folders_root self)
                                    split algo single_algorithm_runner)
                          (rng (selection_seed * n) (algorithms (config self)) (nat n))))
                (product3 (seeds (config self)) (openml_tasks (config self))
                   (data_splits (config self))))
          zs))"
proof (induction zs arbitrary: acc0)
  case Nil
  then show ?case by simp
next
  case (Cons z zs)
  obtain s name where z: "z = (s, name)" by (cases z)
  show ?case
    unfolding z
    by (simp add: Let_def Random_sample_ok [OF assms] fold_append_triple Cons.IH)
qed

lemma n_random_loop_too_large:
  assumes "int (length (algorithms (config self))) < n" "zs \<noteq> []"
  shows "n_random_loop rng self n zs acc0 = Inl ValueError"
proof (cases zs)
  case Nil
  with assms(2) show ?thesis by simp
next
  case (Cons z rest)
  obtain s name where z: "z = (s, name)" by (cases z)
  show ?thesis
    unfolding Cons z by (simp add: Let_def Random_sample_too_large [OF assms(1)])
qed

lemma selector_names_named:
  "sc_name sc = Some nm \<Longrightarrow>
   selector_names sc ss = Inr (map (\<lambda>s. nm @ ''_'' @ str_int s) ss)"
  by (simp add: selector_names_def)

lemma zip_map_same: "zip xs (map f xs) = map (\<lambda>x. (x, f x)) xs"
  by (induction xs) simp_all

lemma ex_sampler_length:
  "\<forall>sd population k. k \<le> length population \<longrightarrow> length (ex_sampler sd population k) = k"
  by (simp add: ex_sampler_def)

lemma ex_sampler_values:
  "ex_sampler 2 [''NB'', ''TR'', ''KNN''] 2 = [''KNN'', ''NB'']"
  "ex_sampler 4 [''NB'', ''TR'', ''KNN''] 2 = [''TR'', ''KNN'']"
  by (simp_all add: ex_sampler_def rotate_def eval_nat_numeral)

lemma str_int_values: "str_int 1 = ''1''" "str_int 2 = ''2''"
  by (simp_all add: str_int_def str_nat.simps digit_char_def)

text \<open>
  Claim C3. Let the spec give a count \<open>n\<close> with \<open>0 \<le> n \<le> |A|\<close>, a list of selection seeds
  and a name, \<open>A\<close> being the configured algorithm list. Then the strategy returns, for each
  selection seed \<open>s\<close> in the order of the list and for each element of
  \<open>seeds \<times> tasks \<times> splits\<close>, a selector job named \<open>name_s\<close> whose dependencies are the
  algorithm jobs of the list that a generator seeded with \<open>s * n\<close> samples from \<open>A\<close> with
  count \<open>n\<close>, in the order the generator returned them. The sampled list is a function of
  \<open>A\<close>, \<open>n\<close> and \<open>s\<close> alone: neither the position of \<open>s\<close> among the selection seeds, nor the
  other selection seeds, nor the name, nor the rest of the configuration enter it, so two
  invocations that agree on \<open>A\<close>, \<open>n\<close> and \<open>s\<close> use the same algorithms in the same order.
  When the library's generator returns \<open>k\<close> elements for every count \<open>k\<close> up to the size of
  the population, every selector job has exactly \<open>n\<close> dependencies.
\<close>

theorem selector_jobs_n_random_sample:
  assumes "sc_n sc = Some n" "sc_selection_seeds sc = Some ss" "sc_name sc = Some nm"
    and "0 \<le> n" "n \<le> int (length (algorithms (config self)))"
  shows "selector_jobs_n_random rng self sc =
     Inr (concat (map (\<lambda>s.
            map (\<lambda>(seed, task, split).
                   SelectorJob (env self) seed (times_in_mins (config self)) task
                     (folders_root self) split selector_runner (nm @ ''_'' @ str_int s)
                     (map (\<lambda>algo. SingleAlgorithmJob (env self) seed
                                    (times_in_mins (config self)) task (folders_root self)
                                    split algo single_algorithm_runner)
                          (rng (s * n) (algorithms (config self)) (nat n))))
                (product3 (seeds (config self)) (openml_tasks (config self))
                   (data_splits (config self))))
          ss))
   \<and> ((\<forall>sd population k. k \<le> length population \<longrightarrow> length (rng sd population k) = k) \<longrightarrow>
        (\<forall>js. selector_jobs_n_random rng self sc = Inr js \<longrightarrow>
              (\<forall>j \<in> set js. length (sj_algorithm_jobs j) = nat n)))"
proof -
  let ?r = "concat (map (\<lambda>s.
            map (\<lambda>(seed, task, split).
                   SelectorJob (env self) seed (times_in_mins (config self)) task
                     (folders_root self) split selector_runner (nm @ ''_'' @ str_int s)
                     (map (\<lambda>algo. SingleAlgorithmJob (env self) seed
                                    (times_in_mins (config self)) task (folders_root self)
                                    split algo single_algorithm_runner)
                          (rng (s * n) (algorithms (config self)) (nat n))))
                (product3 (seeds (config self)) (openml_tasks (config self))
                   (data_splits (config self))))
          ss)"
  have eq: "selector_jobs_n_random rng self sc = Inr ?r"
    using assms(1-3)
    by (simp add: selector_jobs_n_random_def selector_names_named zip_map_same
          n_random_loop_ok [OF assms(4,5)] comp_def)
  have sz: "length (sj_algorithm_jobs j) = nat n"
    if c: "\<forall>sd population k. k \<le> length population \<longrightarrow> length (rng sd population k) = k"
      and j: "j \<in> set ?r" for j
  proof -
    have "nat n \<le> length (algorithms (config self))" using assms(4,5) by linarith
    then have "length (rng sd (algorithms (config self)) (nat n)) = nat n" for sd
      using c by blast
    with j show ?thesis by auto
  qed
  show ?thesis using eq sz by simp
qed

theorem selector_jobs_n_random_sample_witness:
  "\<exists>js. selector_jobs_n_random ex_sampler ex_benchmark ex_selector_random = Inr js
     \<and> map sj_name js = [''RAN2_1'', ''RAN2_1'', ''RAN2_2'', ''RAN2_2'']
     \<and> map sj_seed js = [5, 7, 5, 7]
     \<and> map (\<lambda>j. map saj_algo (sj_algorithm_jobs j)) js
         = [[''KNN'', ''NB''], [''KNN'', ''NB''], [''TR'', ''KNN''], [''TR'', ''KNN'']]
     \<and> list_all (\<lambda>j. length (sj_algorithm_jobs j) = 2) js"
proof -
  have h: "sc_n ex_selector_random = Some 2" "sc_selection_seeds ex_selector_random = Some [1, 2]"
    "sc_name ex_selector_random = Some ''RAN2''"
    by (simp_all add: ex_selector_random_def)
  have b: "(0::int) \<le> 2" "2 \<le> int (length (algorithms (config ex_benchmark)))"
    by (simp_all add: ex_benchmark_fields ex_config_def)
  note t = selector_jobs_n_random_sample [OF h b, of ex_sampler]
  define js where "js = projr (selector_jobs_n_random ex_sampler ex_benchmark ex_selector_random)"
  have e: "selector_jobs_n_random ex_sampler ex_benchmark ex_selector_random = Inr js"
    unfolding js_def using t [THEN conjunct1] by simp
  have v: "js = concat (map (\<lambda>s.
            map (\<lambda>(seed, task, split).
                   SelectorJob ''eb130475'' seed [30, 60] task ''/data/tpot_bench'' split
                     selector_runner (''RAN2'' @ ''_'' @ str_int s)
                     (map (\<lambda>algo. SingleAlgorithmJob ''eb130475'' seed [30, 60] task
                                    ''/data/tpot_bench'' split algo single_algorithm_runner)
                          (ex_sampler (s * 2) [''NB'', ''TR'', ''KNN''] (nat 2))))
                (product3 [5, 7] [3] [(0.5, 0.3, 0.2)]))
          [1, 2])"
    using t [THEN conjunct1] unfolding e by (simp add: ex_benchmark_fields ex_config_def)
  have sz: "\<forall>j \<in> set js. length (sj_algorithm_jobs j) = nat 2"
    using t [THEN conjunct2, THEN mp, OF ex_sampler_length] e by blast
  have la: "list_all (\<lambda>j. length (sj_algorithm_jobs j) = 2) js"
    using sz by (simp add: list_all_iff)
  have nm: "map sj_name js = [''RAN2_1'', ''RAN2_1'', ''RAN2_2'', ''RAN2_2'']"
    unfolding v by (simp add: product3_def str_int_values)
  have sd: "map sj_seed js = [5, 7, 5, 7]"
    unfolding v by (simp add: product3_def)
  have al: "map (\<lambda>j. map saj_algo (sj_algorithm_jobs j)) js
         = [[''KNN'', ''NB''], [''KNN'', ''NB''], [''TR'', ''KNN''], [''TR'', ''KNN'']]"
    unfolding v by (simp add: product3_def ex_sampler_values comp_def)
  show ?thesis
    by (rule exI [of _ js]) (intro conjI e nm sd al la)
qed

section \<open>The selector strategy resolver\<close>

text \<open>
  The loop of \<^verbatim>\<open>selector_jobs\<close> stops at the first spec whose resolution raises, and
  otherwise returns the concatenation of what the strategies returned.
\<close>

lemma selector_functions_dom:
  "selector_functions rng self ty = None \<longleftrightarrow>
     ty \<notin> {''all'', ''top_n'', ''n_least_overlapping'', ''n_most_coverage'',
           ''n_random_selection''}"
  by (simp add: selector_functions_def)

lemma get_selector_jobs_random:
  "sc_type sc = Some ''n_random_selection'' \<Longrightarrow>
   get_selector_jobs rng self sc = selector_jobs_n_random rng self sc"
  by (simp add: get_selector_jobs_def selector_functions_def)

lemma get_selector_jobs_unknown:
  assumes "sc_type sc = Some ty"
    and "ty \<notin> {''all'', ''top_n'', ''n_least_overlapping'', ''n_most_coverage'',
               ''n_random_selection''}"
  shows "get_selector_jobs rng self sc = Inl (KeyError ty)"
  using assms selector_functions_dom [of rng self ty]
  by (simp add: get_selector_jobs_def)

lemma selector_jobs_loop_first_failure:
  assumes "\<forall>p \<in> set pre. \<exists>js. get_selector_jobs rng self p = Inr js"
    and "get_selector_jobs rng self sc = Inl e"
  shows "selector_jobs_loop rng self (pre @ sc # post) acc0 = Inl e"
  using assms
proof (induction pre arbitrary: acc0)
  case Nil
  then show ?case by simp
next
  case (Cons p pre)
  from Cons.prems(1) obtain js where "get_selector_jobs rng self p = Inr js" by auto
  moreover have "selector_jobs_loop rng self (pre @ sc # post) (acc0 @ js) = Inl e"
    using Cons.prems by (intro Cons.IH) auto
  ultimately show ?case by simp
qed

lemma selector_jobs_loop_some_failure:
  assumes "sc \<in> set scs" "get_selector_jobs rng self sc = Inl e"
  shows "\<exists>e'. selector_jobs_loop rng self scs acc0 = Inl e'"
  using assms
proof (induction scs arbitrary: acc0)
  case Nil
  then show ?case by simp
next
  case (Cons p scs)
  show ?case
  proof (cases "get_selector_jobs rng self p")
    case (Inl e1)
    then show ?thesis by simp
  next
    case (Inr js)
    with Cons.prems have "sc \<in> set scs" by auto
    from Cons.IH [OF this Cons.prems(2)] Inr show ?thesis by simp
  qed
qed

lemma selector_jobs_loop_Inr:
  "selector_jobs_loop rng self scs acc0 = Inr r \<longleftrightarrow>
     (\<exists>parts. list_all2 (\<lambda>sc part. get_selector_jobs rng self sc = Inr part) scs parts
              \<and> r = acc0 @ concat parts)"
proof (induction scs arbitrary: acc0)
  case Nil
  then show ?case by auto
next
  case (Cons p scs)
  show ?case
  proof (cases "get_selector_jobs rng self p")
    case (Inl e1)
    then show ?thesis by (simp add: list_all2_Cons1)
  next
    case (Inr js)
    then show ?thesis by (auto simp add: Cons.IH list_all2_Cons1)
  qed
qed

lemma jobs_selector_error:
  "selector_jobs rng self = Inl e \<Longrightarrow> jobs rng be self f = Inl e"
  by (simp add: jobs_def)

section \<open>Unknown selector types\<close>

lemma ex_benchmark_bogus_fields:
  "config ex_benchmark_bogus
     = ex_config \<lparr> selectors := [ex_selector_all, ex_selector_bogus, ex_selector_random] \<rparr>"
  "selectors (config ex_benchmark_bogus) = [ex_selector_all, ex_selector_bogus, ex_selector_random]"
  by (simp_all add: ex_benchmark_bogus_def Benchmark_init_def)

text \<open>
  Claim C5. Let a spec of the configuration carry a type tag that is none of \<open>all\<close>,
  \<open>top_n\<close>, \<open>n_least_overlapping\<close>, \<open>n_most_coverage\<close>, \<open>n_random_selection\<close>. Resolving
  that spec raises the lookup error of the closed mapping \<^verbatim>\<open>functions\<close>, a
  \<^verbatim>\<open>KeyError\<close> carrying the unknown tag (this is the error the specification calls
  UnknownSelectorType), and yields no job list for the spec. Nothing catches it:
  \<^verbatim>\<open>selector_jobs\<close> and \<^verbatim>\<open>jobs\<close> return no list either, and when every spec before
  it resolves, the error they raise is this very \<^verbatim>\<open>KeyError\<close>.
\<close>

theorem selector_jobs_unknown_type:
  assumes "sc \<in> set (selectors (config self))" "sc_type sc = Some ty"
    and "ty \<notin> {''all'', ''top_n'', ''n_least_overlapping'', ''n_most_coverage'',
               ''n_random_selection''}"
  shows "get_selector_jobs rng self sc = Inl (KeyError ty)
     \<and> (\<exists>e. selector_jobs rng self = Inl e)
     \<and> (\<exists>e. jobs rng be self filter_by = Inl e)
     \<and> (\<forall>pre post.
           selectors (config self) = pre @ sc # post \<longrightarrow>
           (\<forall>p \<in> set pre. \<exists>js. get_selector_jobs rng self p = Inr js) \<longrightarrow>
           selector_jobs rng self = Inl (KeyError ty)
           \<and> jobs rng be self filter_by = Inl (KeyError ty))"
proof -
  have g: "get_selector_jobs rng self sc = Inl (KeyError ty)"
    using assms(2,3) by (rule get_selector_jobs_unknown)
  obtain e where e: "selector_jobs rng self = Inl e"
    using selector_jobs_loop_some_failure [OF assms(1) g] unfolding selector_jobs_def by auto
  have j: "jobs rng be self filter_by = Inl e" using e by (rule jobs_selector_error)
  have first: "selector_jobs rng self = Inl (KeyError ty)
           \<and> jobs rng be self filter_by = Inl (KeyError ty)"
    if "selectors (config self) = pre @ sc # post"
      and "\<forall>p \<in> set pre. \<exists>js. get_selector_jobs rng self p = Inr js" for pre post
  proof -
    have "selector_jobs rng self = Inl (KeyError ty)"
      unfolding selector_jobs_def that(1)
      using that(2) g by (rule selector_jobs_loop_first_failure)
    then show ?thesis by (simp add: jobs_selector_error)
  qed
  show ?thesis
  proof (intro conjI allI impI)
    show "get_selector_jobs rng self sc = Inl (KeyError ty)" by (rule g)
    show "\<exists>e. selector_jobs rng self = Inl e" using e by (rule exI)
    show "\<exists>e. jobs rng be self filter_by = Inl e" using j by (rule exI)
  next
    fix pre post
    assume a: "selectors (config self) = pre @ sc # post"
      "\<forall>p \<in> set pre. \<exists>js. get_selector_jobs rng self p = Inr js"
    show "selector_jobs rng self = Inl (KeyError ty)" using first [OF a] by (rule conjunct1)
    show "jobs rng be self filter_by = Inl (KeyError ty)" using first [OF a] by (rule conjunct2)
  qed
qed

theorem selector_jobs_unknown_type_witness:
  "get_selector_jobs ex_sampler ex_benchmark_bogus ex_selector_bogus = Inl (KeyError ''bogus'')
   \<and> selector_jobs ex_sampler ex_benchmark_bogus = Inl (KeyError ''bogus'')
   \<and> jobs ex_sampler ex_backend ex_benchmark_bogus None = Inl (KeyError ''bogus'')"
proof -
  have m: "ex_selector_bogus \<in> set (selectors (config ex_benchmark_bogus))"
    by (simp add: ex_benchmark_bogus_fields)
  have t: "sc_type ex_selector_bogus = Some ''bogus''" by (simp add: ex_selector_bogus_def)
  have u: "''bogus'' \<notin> {''all'', ''top_n'', ''n_least_overlapping'', ''n_most_coverage'',
               ''n_random_selection''}" by simp
  note th = selector_jobs_unknown_type [OF m t u, of ex_sampler ex_backend None]
  have sp: "selectors (config ex_benchmark_bogus)
            = [ex_selector_all] @ ex_selector_bogus # [ex_selector_random]"
    by (simp add: ex_benchmark_bogus_fields)
  have "sc_name ex_selector_all = Some ''ALL''" by (simp add: ex_selector_all_def)
  then have "\<exists>js. selector_jobs_all ex_benchmark_bogus ex_selector_all = Inr js"
    by (simp add: selector_jobs_all_map)
  then have ok: "\<forall>p \<in> set [ex_selector_all].
                  \<exists>js. get_selector_jobs ex_sampler ex_benchmark_bogus p = Inr js"
    by (simp add: get_selector_jobs_def selector_functions_def ex_selector_all_def)
  note f = th [THEN conjunct2, THEN conjunct2, THEN conjunct2, THEN spec, THEN spec, THEN mp,
                OF sp, THEN mp, OF ok]
  from th [THEN conjunct1] f show ?thesis by simp
qed

section \<open>Requesting more algorithms than are configured\<close>

lemma ex_benchmark_many_fields:
  "selectors (config ex_benchmark_many) = [ex_selector_all, ex_selector_many]"
  "algorithms (config ex_benchmark_many) = [''NB'', ''TR'', ''KNN'']"
  by (simp_all add: ex_benchmark_many_def Benchmark_init_def ex_config_def)

lemma get_selector_jobs_all_named:
  "sc_type sc = Some ''all'' \<Longrightarrow> sc_name sc = Some nm \<Longrightarrow>
   \<exists>js. get_selector_jobs rng self sc = Inr js"
  by (simp add: get_selector_jobs_def selector_functions_def selector_jobs_all_map)

text \<open>
  Claim C6, as the code has it. Let a random-selection spec carry a name, at least one
  selection seed, and a count \<open>n\<close> greater than the number of configured algorithms. Then
  the strategy raises, at its first sample and before it builds any job, the generator's
  \<^verbatim>\<open>ValueError\<close> (the error the specification calls InsufficientAlgorithms). Nothing
  catches it: dispatching the spec raises it, and when every spec before it resolves,
  \<^verbatim>\<open>selector_jobs\<close> raises it and so does \<^verbatim>\<open>jobs\<close>, with or without a filter. The
  error ends the enumeration of the whole job graph.
\<close>

theorem selector_jobs_n_random_insufficient:
  assumes "sc_n sc = Some n" "sc_selection_seeds sc = Some ss" "ss \<noteq> []"
    "sc_name sc = Some nm"
    and "int (length (algorithms (config self))) < n"
  shows "selector_jobs_n_random rng self sc = Inl ValueError
     \<and> (sc_type sc = Some ''n_random_selection'' \<longrightarrow>
          get_selector_jobs rng self sc = Inl ValueError
          \<and> (\<forall>pre post.
                selectors (config self) = pre @ sc # post \<longrightarrow>
                (\<forall>p \<in> set pre. \<exists>js. get_selector_jobs rng self p = Inr js) \<longrightarrow>
                selector_jobs rng self = Inl ValueError
                \<and> (\<forall>be filter_by. jobs rng be self filter_by = Inl ValueError)))"
proof -
  have z: "zip ss (map (\<lambda>s. nm @ CHR ''_'' # str_int s) ss) \<noteq> []"
    using assms(3) by (cases ss) simp_all
  have r: "selector_jobs_n_random rng self sc = Inl ValueError"
    using assms(1,2,4)
    by (simp add: selector_jobs_n_random_def selector_names_named
          n_random_loop_too_large [OF assms(5) z])
  have g: "get_selector_jobs rng self sc = Inl ValueError"
    if "sc_type sc = Some ''n_random_selection''"
    using r by (simp add: get_selector_jobs_random [OF that])
  have w: "selector_jobs rng self = Inl ValueError"
    if "sc_type sc = Some ''n_random_selection''"
      "selectors (config self) = pre @ sc # post"
      "\<forall>p \<in> set pre. \<exists>js. get_selector_jobs rng self p = Inr js" for pre post
    unfolding selector_jobs_def that(2)
    using that(3) g [OF that(1)] by (rule selector_jobs_loop_first_failure)
  show ?thesis
  proof (intro conjI allI impI)
    show "selector_jobs_n_random rng self sc = Inl ValueError" by (rule r)
  next
    assume "sc_type sc = Some ''n_random_selection''"
    then show "get_selector_jobs rng self sc = Inl ValueError" by (rule g)
  next
    fix pre post be filter_by
    assume a: "sc_type sc = Some ''n_random_selection''"
      "selectors (config self) = pre @ sc # post"
      "\<forall>p \<in> set pre. \<exists>js. get_selector_jobs rng self p = Inr js"
    show "selector_jobs rng self = Inl ValueError" by (rule w [OF a])
    then show "jobs rng be self filter_by = Inl ValueError" by (rule jobs_selector_error)
  qed
qed

theorem selector_jobs_n_random_insufficient_witness:
  "selector_jobs_n_random ex_sampler ex_benchmark_many ex_selector_many = Inl ValueError
   \<and> get_selector_jobs ex_sampler ex_benchmark_many ex_selector_many = Inl ValueError
   \<and> selector_jobs ex_sampler ex_benchmark_many = Inl ValueError
   \<and> jobs ex_sampler ex_backend ex_benchmark_many (Some ''complete'') = Inl ValueError"
proof -
  have h: "sc_n ex_selector_many = Some 5" "sc_selection_seeds ex_selector_many = Some [1, 2, 3]"
    "[1, 2, 3] \<noteq> ([] :: int list)" "sc_name ex_selector_many = Some ''RAN5''"
    by (simp_all add: ex_selector_many_def)
  have b: "int (length (algorithms (config ex_benchmark_many))) < 5"
    by (simp add: ex_benchmark_many_fields)
  note th = selector_jobs_n_random_insufficient [OF h b, of ex_sampler]
  have ty: "sc_type ex_selector_many = Some ''n_random_selection''"
    by (simp add: ex_selector_many_def)
  have sp: "selectors (config ex_benchmark_many) = [ex_selector_all] @ ex_selector_many # []"
    by (simp add: ex_benchmark_many_fields)
  have ok: "\<forall>p \<in> set [ex_selector_all].
              \<exists>js. get_selector_jobs ex_sampler ex_benchmark_many p = Inr js"
    using get_selector_jobs_all_named [of ex_selector_all "''ALL''" ex_sampler ex_benchmark_many]
    by (simp add: ex_selector_all_def)
  note u = th [THEN conjunct2, THEN mp, OF ty]
  note v = u [THEN conjunct2, THEN spec, THEN spec, THEN mp, OF sp, THEN mp, OF ok]
  from th [THEN conjunct1] u [THEN conjunct1] v [THEN conjunct1]
    v [THEN conjunct2, THEN spec, THEN spec, of ex_backend "Some ''complete''"]
  show ?thesis by simp
qed

text \<open>
  In the example the second spec asks for five of three algorithms: \<^verbatim>\<open>jobs\<close> returns no
  job at all, not even the algorithm jobs, the jobs of the "all" selector or the baseline
  jobs. The same request with an empty list of selection seeds draws no sample, raises
  nothing and returns the empty list.
\<close>

theorem selector_jobs_n_random_counterexample:
  "int (length (algorithms (config ex_benchmark_many))) < 5
   \<and> sc_n ex_selector_many = Some 5
   \<and> selectors (config ex_benchmark_many) = [ex_selector_all, ex_selector_many]
   \<and> jobs ex_sampler ex_backend ex_benchmark_many None = Inl ValueError
   \<and> sc_n ex_selector_no_seeds = Some 5
   \<and> selector_jobs_n_random ex_sampler ex_benchmark_many ex_selector_no_seeds = Inr []"
proof -
  have a: "get_selector_jobs ex_sampler ex_benchmark_many ex_selector_many = Inl ValueError"
    by (simp add: get_selector_jobs_def selector_functions_def selector_jobs_n_random_def
          selector_names_def ex_selector_many_def Random_sample_def ex_benchmark_many_def
          Benchmark_init_def ex_config_def Let_def)
  have "\<exists>js. get_selector_jobs ex_sampler ex_benchmark_many ex_selector_all = Inr js"
    by (rule get_selector_jobs_all_named) (simp_all add: ex_selector_all_def)
  then have "selector_jobs ex_sampler ex_benchmark_many = Inl ValueError"
    unfolding selector_jobs_def ex_benchmark_many_fields using a by auto
  then have "jobs ex_sampler ex_backend ex_benchmark_many None = Inl ValueError"
    by (rule jobs_selector_error)
  moreover have "selector_jobs_n_random ex_sampler ex_benchmark_many ex_selector_no_seeds = Inr []"
    by (simp add: selector_jobs_n_random_def selector_names_def ex_selector_no_seeds_def)
  ultimately show ?thesis
    by (simp add: ex_benchmark_many_fields ex_selector_many_def ex_selector_no_seeds_def)
qed

section \<open>The example, evaluated\<close>

lemma ex_baseline_jobs: "baseline_jobs ex_benchmark = Inr [ex_base 5, ex_base 7]"
proof -
  have "[1..3::int] = [1, 2, 3]" by (simp add: upto.simps)
  then show ?thesis
    by (simp add: baseline_jobs_def ex_benchmark_fields ex_config_def product3_def Let_def
          insert_commute ex_base_def)
qed

lemma ex_algorithm_jobs:
  "algorithm_jobs ex_benchmark
     = [ex_dep 5 ''NB'', ex_dep 5 ''TR'', ex_dep 5 ''KNN'',
        ex_dep 7 ''NB'', ex_dep 7 ''TR'', ex_dep 7 ''KNN'']"
  by (simp add: algorithm_jobs_def ex_benchmark_fields ex_config_def product4_def Let_def
        ex_dep_def)

lemma ex_get_all:
  "get_selector_jobs ex_sampler ex_benchmark ex_selector_all
   = Inr [ex_sel 5 ''ALL'' [''NB'', ''TR'', ''KNN''], ex_sel 7 ''ALL'' [''NB'', ''TR'', ''KNN'']]"
  by (simp add: get_selector_jobs_def selector_functions_def selector_jobs_all_map
        ex_selector_all_def ex_benchmark_fields ex_config_def product3_def ex_sel_def ex_dep_def)

lemma ex_get_top:
  "get_selector_jobs ex_sampler ex_benchmark ex_selector_top = Inr []"
  by (simp add: get_selector_jobs_def selector_functions_def selector_jobs_n_top_def
        ex_selector_top_def)

lemma ex_get_random:
  "get_selector_jobs ex_sampler ex_benchmark ex_selector_random
   = Inr [ex_sel 5 ''RAN2_1'' [''KNN'', ''NB''], ex_sel 7 ''RAN2_1'' [''KNN'', ''NB''],
          ex_sel 5 ''RAN2_2'' [''TR'', ''KNN''], ex_sel 7 ''RAN2_2'' [''TR'', ''KNN'']]"
proof -
  have "get_selector_jobs ex_sampler ex_benchmark ex_selector_random
        = selector_jobs_n_random ex_sampler ex_benchmark ex_selector_random"
    by (rule get_selector_jobs_random) (simp add: ex_selector_random_def)
  also have "\<dots> = n_random_loop ex_sampler ex_benchmark 2
                     [(1, ''RAN2_1''), (2, ''RAN2_2'')] []"
    by (simp add: selector_jobs_n_random_def selector_names_def ex_selector_random_def
          str_int_values)
  also have "\<dots> = Inr [ex_sel 5 ''RAN2_1'' [''KNN'', ''NB''], ex_sel 7 ''RAN2_1'' [''KNN'', ''NB''],
          ex_sel 5 ''RAN2_2'' [''TR'', ''KNN''], ex_sel 7 ''RAN2_2'' [''TR'', ''KNN'']]"
    by (subst n_random_loop_ok)
       (simp_all add: ex_benchmark_fields ex_config_def product3_def ex_sampler_values
          ex_sel_def ex_dep_def)
  finally show ?thesis .
qed

lemma ex_selector_jobs:
  "selector_jobs ex_sampler ex_benchmark
   = Inr [ex_sel 5 ''ALL'' [''NB'', ''TR'', ''KNN''], ex_sel 7 ''ALL'' [''NB'', ''TR'', ''KNN''],
          ex_sel 5 ''RAN2_1'' [''KNN'', ''NB''], ex_sel 7 ''RAN2_1'' [''KNN'', ''NB''],
          ex_sel 5 ''RAN2_2'' [''TR'', ''KNN''], ex_sel 7 ''RAN2_2'' [''TR'', ''KNN'']]"
  by (simp add: selector_jobs_def ex_benchmark_fields(1) ex_config_def
        ex_get_all ex_get_top ex_get_random)

section \<open>The strategies that are not implemented yet\<close>

text \<open>
  Claim C9. For every benchmark and every spec, each of the three strategies
  \<^verbatim>\<open>selector_jobs_n_top\<close>, \<^verbatim>\<open>selector_jobs_n_least_overlapping\<close> and
  \<^verbatim>\<open>selector_jobs_n_most_coverage\<close> returns the empty job list and raises nothing, and so
  does the resolver for a spec whose type tag is \<open>top_n\<close>, \<open>n_least_overlapping\<close> or
  \<open>n_most_coverage\<close>.
\<close>

theorem placeholder_strategies_empty:
  "selector_jobs_n_top self sc = Inr []
   \<and> selector_jobs_n_least_overlapping self sc = Inr []
   \<and> selector_jobs_n_most_coverage self sc = Inr []
   \<and> (sc_type sc \<in> {Some ''top_n'', Some ''n_least_overlapping'', Some ''n_most_coverage''}
        \<longrightarrow> get_selector_jobs rng self sc = Inr [])"
  by (auto simp add: selector_jobs_n_top_def selector_jobs_n_least_overlapping_def
        selector_jobs_n_most_coverage_def get_selector_jobs_def selector_functions_def)

theorem placeholder_strategies_empty_witness:
  "selector_jobs_n_top ex_benchmark ex_selector_top = Inr []
   \<and> get_selector_jobs ex_sampler ex_benchmark ex_selector_top = Inr []"
proof -
  have t: "sc_type ex_selector_top
          \<in> {Some ''top_n'', Some ''n_least_overlapping'', Some ''n_most_coverage''}"
    by (simp add: ex_selector_top_def)
  note th = placeholder_strategies_empty [of ex_benchmark ex_selector_top ex_sampler]
  from th [THEN conjunct1] th [THEN conjunct2, THEN conjunct2, THEN conjunct2, THEN mp, OF t]
  show ?thesis by (rule conjI)
qed

section \<open>The job sequence\<close>

text \<open>
  Claim C8. \<^verbatim>\<open>jobs()\<close> without a filter returns a list exactly when
  \<^verbatim>\<open>selector_jobs\<close> and \<^verbatim>\<open>baseline_jobs\<close> do, and the list is then the algorithm
  jobs, followed by the selector jobs, followed by the baseline jobs. \<^verbatim>\<open>selector_jobs\<close>
  returns a list exactly when every configured spec resolves, and the list is then the
  concatenation, in the order of the specs, of the lists the strategies returned, each
  unchanged.
\<close>

theorem jobs_concatenation:
  "(jobs rng be self None = Inr js \<longleftrightarrow>
      (\<exists>ss bs. selector_jobs rng self = Inr ss \<and> baseline_jobs self = Inr bs
         \<and> js = map Algorithm (algorithm_jobs self) @ map Selector ss @ map Baseline bs))
   \<and> (selector_jobs rng self = Inr sel \<longleftrightarrow>
      (\<exists>parts. list_all2 (\<lambda>sc part. get_selector_jobs rng self sc = Inr part)
                 (selectors (config self)) parts
         \<and> sel = concat parts))"
proof
  show "jobs rng be self None = Inr js \<longleftrightarrow>
      (\<exists>ss bs. selector_jobs rng self = Inr ss \<and> baseline_jobs self = Inr bs
         \<and> js = map Algorithm (algorithm_jobs self) @ map Selector ss @ map Baseline bs)"
    by (cases "selector_jobs rng self"; cases "baseline_jobs self")
       (auto simp add: jobs_def Let_def)
  show "selector_jobs rng self = Inr sel \<longleftrightarrow>
      (\<exists>parts. list_all2 (\<lambda>sc part. get_selector_jobs rng self sc = Inr part)
                 (selectors (config self)) parts
         \<and> sel = concat parts)"
    unfolding selector_jobs_def by (simp add: selector_jobs_loop_Inr)
qed

theorem jobs_concatenation_witness:
  "selector_jobs ex_sampler ex_benchmark
     = Inr (concat [[ex_sel 5 ''ALL'' [''NB'', ''TR'', ''KNN''],
                     ex_sel 7 ''ALL'' [''NB'', ''TR'', ''KNN'']],
                    [],
                    [ex_sel 5 ''RAN2_1'' [''KNN'', ''NB''], ex_sel 7 ''RAN2_1'' [''KNN'', ''NB''],
                     ex_sel 5 ''RAN2_2'' [''TR'', ''KNN''], ex_sel 7 ''RAN2_2'' [''TR'', ''KNN'']]])
   \<and> jobs ex_sampler ex_backend ex_benchmark None
     = Inr (map Algorithm [ex_dep 5 ''NB'', ex_dep 5 ''TR'', ex_dep 5 ''KNN'',
                           ex_dep 7 ''NB'', ex_dep 7 ''TR'', ex_dep 7 ''KNN'']
            @ map Selector
                [ex_sel 5 ''ALL'' [''NB'', ''TR'', ''KNN''], ex_sel 7 ''ALL'' [''NB'', ''TR'', ''KNN''],
                 ex_sel 5 ''RAN2_1'' [''KNN'', ''NB''], ex_sel 7 ''RAN2_1'' [''KNN'', ''NB''],
                 ex_sel 5 ''RAN2_2'' [''TR'', ''KNN''], ex_sel 7 ''RAN2_2'' [''TR'', ''KNN'']]
            @ map Baseline [ex_base 5, ex_base 7])"
proof -
  let ?p1 = "[ex_sel 5 ''ALL'' [''NB'', ''TR'', ''KNN''], ex_sel 7 ''ALL'' [''NB'', ''TR'', ''KNN'']]"
  let ?p3 = "[ex_sel 5 ''RAN2_1'' [''KNN'', ''NB''], ex_sel 7 ''RAN2_1'' [''KNN'', ''NB''],
              ex_sel 5 ''RAN2_2'' [''TR'', ''KNN''], ex_sel 7 ''RAN2_2'' [''TR'', ''KNN'']]"
  have sels: "selectors (config ex_benchmark)
              = [ex_selector_all, ex_selector_top, ex_selector_random]"
    by (simp add: ex_benchmark_fields(1) ex_config_def)
  have parts: "list_all2 (\<lambda>sc part. get_selector_jobs ex_sampler ex_benchmark sc = Inr part)
                 (selectors (config ex_benchmark)) [?p1, [], ?p3]"
    unfolding sels by (simp add: ex_get_all ex_get_top ex_get_random)
  have s: "selector_jobs ex_sampler ex_benchmark = Inr (concat [?p1, [], ?p3])"
    by (rule jobs_concatenation [THEN conjunct2, THEN iffD2])
       (rule exI [of _ "[?p1, [], ?p3]"], rule conjI, rule parts, rule refl)
  have j: "jobs ex_sampler ex_backend ex_benchmark None
     = Inr (map Algorithm (algorithm_jobs ex_benchmark) @ map Selector (concat [?p1, [], ?p3])
            @ map Baseline [ex_base 5, ex_base 7])"
    by (rule jobs_concatenation [THEN conjunct1, THEN iffD2])
       (intro exI conjI, rule s, rule ex_baseline_jobs, rule refl)
  from s j show ?thesis by (simp add: ex_algorithm_jobs)
qed

section \<open>Filtering by a lifecycle predicate\<close>

lemma job_filters_named:
  "job_filters ''ready'' = Some ready"
  "job_filters ''failed'' = Some failed"
  "job_filters ''blocked'' = Some blocked"
  "job_filters ''pending'' = Some pending"
  "job_filters ''running'' = Some running"
  "job_filters ''complete'' = Some complete"
  "job_filters ''in_progress'' = Some in_progress"
  by (simp_all add: job_filters_def)

lemma job_filters_defined:
  assumes "p \<in> {''ready'', ''failed'', ''blocked'', ''pending'', ''running'', ''complete'',
                ''in_progress''}"
  shows "p \<noteq> [] \<and> (\<exists>pred. job_filters p = Some pred)"
  using assms job_filters_named by auto

lemma jobs_filtered:
  assumes "p \<noteq> []" "job_filters p = Some pred"
  shows "jobs rng be self (Some p)
         = (case jobs rng be self None of Inl e \<Rightarrow> Inl e
            | Inr js \<Rightarrow> Inr (filter (pred be) js))"
  using assms
  by (cases "selector_jobs rng self"; cases "baseline_jobs self")
     (simp_all add: jobs_def Let_def)

lemma ex_jobs_unfiltered:
  "jobs ex_sampler ex_backend ex_benchmark None
     = Inr (map Algorithm [ex_dep 5 ''NB'', ex_dep 5 ''TR'', ex_dep 5 ''KNN'',
                           ex_dep 7 ''NB'', ex_dep 7 ''TR'', ex_dep 7 ''KNN'']
            @ map Selector
                [ex_sel 5 ''ALL'' [''NB'', ''TR'', ''KNN''], ex_sel 7 ''ALL'' [''NB'', ''TR'', ''KNN''],
                 ex_sel 5 ''RAN2_1'' [''KNN'', ''NB''], ex_sel 7 ''RAN2_1'' [''KNN'', ''NB''],
                 ex_sel 5 ''RAN2_2'' [''TR'', ''KNN''], ex_sel 7 ''RAN2_2'' [''TR'', ''KNN'']]
            @ map Baseline [ex_base 5, ex_base 7])"
  by (simp add: jobs_def ex_selector_jobs ex_baseline_jobs ex_algorithm_jobs)

lemma ex_jobs_bogus:
  "jobs ex_sampler ex_backend ex_benchmark_bogus None = Inl (KeyError ''bogus'')"
proof -
  have g: "get_selector_jobs ex_sampler ex_benchmark_bogus ex_selector_bogus
           = Inl (KeyError ''bogus'')"
    by (rule get_selector_jobs_unknown) (simp_all add: ex_selector_bogus_def)
  have ok: "\<forall>p \<in> set [ex_selector_all].
              \<exists>js. get_selector_jobs ex_sampler ex_benchmark_bogus p = Inr js"
    using get_selector_jobs_all_named [of ex_selector_all "''ALL''" ex_sampler ex_benchmark_bogus]
    by (simp add: ex_selector_all_def)
  have "selector_jobs_loop ex_sampler ex_benchmark_bogus
          ([ex_selector_all] @ ex_selector_bogus # [ex_selector_random]) []
        = Inl (KeyError ''bogus'')"
    using ok g by (rule selector_jobs_loop_first_failure)
  then have "selector_jobs ex_sampler ex_benchmark_bogus = Inl (KeyError ''bogus'')"
    by (simp add: selector_jobs_def ex_benchmark_bogus_fields)
  then show ?thesis by (rule jobs_selector_error)
qed

text \<open>
  Claim C7. Each of the seven filter names is mapped to the backend query of the same name,
  unchanged. For such a name \<open>p\<close>, whenever \<^verbatim>\<open>jobs()\<close> returns the list \<open>js\<close>,
  \<^verbatim>\<open>jobs(filter_by=p)\<close> returns the jobs of \<open>js\<close> that satisfy \<open>p\<close>, in the order of
  \<open>js\<close>: a subset of \<open>js\<close>, every returned job satisfies \<open>p\<close>, and no job of \<open>js\<close> that was
  left out satisfies \<open>p\<close>. When \<^verbatim>\<open>jobs()\<close> raises, \<^verbatim>\<open>jobs(filter_by=p)\<close> raises the
  same error.
\<close>

theorem jobs_filter_by:
  assumes "p \<in> {''ready'', ''failed'', ''blocked'', ''pending'', ''running'', ''complete'',
                ''in_progress''}"
  shows "job_filters ''ready'' = Some ready \<and> job_filters ''failed'' = Some failed
     \<and> job_filters ''blocked'' = Some blocked \<and> job_filters ''pending'' = Some pending
     \<and> job_filters ''running'' = Some running \<and> job_filters ''complete'' = Some complete
     \<and> job_filters ''in_progress'' = Some in_progress
     \<and> (\<exists>pred. job_filters p = Some pred
          \<and> (\<forall>js. jobs rng be self None = Inr js \<longrightarrow>
                jobs rng be self (Some p) = Inr (filter (pred be) js)
                \<and> set (filter (pred be) js) \<subseteq> set js
                \<and> (\<forall>j \<in> set (filter (pred be) js). pred be j)
                \<and> (\<forall>j \<in> set js. j \<notin> set (filter (pred be) js) \<longrightarrow> \<not> pred be j))
          \<and> (\<forall>e. jobs rng be self None = Inl e \<longrightarrow> jobs rng be self (Some p) = Inl e))"
proof -
  from job_filters_defined [OF assms] obtain pred
    where ne: "p \<noteq> []" and pred: "job_filters p = Some pred" by auto
  note f = jobs_filtered [OF ne pred, of rng be self]
  have a: "jobs rng be self (Some p) = Inr (filter (pred be) js)
           \<and> set (filter (pred be) js) \<subseteq> set js
           \<and> (\<forall>j \<in> set (filter (pred be) js). pred be j)
           \<and> (\<forall>j \<in> set js. j \<notin> set (filter (pred be) js) \<longrightarrow> \<not> pred be j)"
    if "jobs rng be self None = Inr js" for js
    using that by (simp add: f)
  have b: "jobs rng be self (Some p) = Inl e" if "jobs rng be self None = Inl e" for e
    using that by (simp add: f)
  have "\<exists>pred. job_filters p = Some pred
          \<and> (\<forall>js. jobs rng be self None = Inr js \<longrightarrow>
                jobs rng be self (Some p) = Inr (filter (pred be) js)
                \<and> set (filter (pred be) js) \<subseteq> set js
                \<and> (\<forall>j \<in> set (filter (pred be) js). pred be j)
                \<and> (\<forall>j \<in> set js. j \<notin> set (filter (pred be) js) \<longrightarrow> \<not> pred be j))
          \<and> (\<forall>e. jobs rng be self None = Inl e \<longrightarrow> jobs rng be self (Some p) = Inl e)"
    using pred a b by (intro exI [of _ pred] conjI allI impI) auto
  then show ?thesis by (simp add: job_filters_named)
qed

theorem jobs_filter_by_witness:
  "jobs ex_sampler ex_backend ex_benchmark (Some ''complete'')
     = Inr [Algorithm (ex_dep 5 ''NB''), Algorithm (ex_dep 5 ''TR''), Algorithm (ex_dep 5 ''KNN'')]
   \<and> jobs ex_sampler ex_backend ex_benchmark_bogus (Some ''complete'')
     = Inl (KeyError ''bogus'')"
proof -
  have m: "''complete'' \<in> {''ready'', ''failed'', ''blocked'', ''pending'', ''running'',
                             ''complete'', ''in_progress''}" by simp
  note th = jobs_filter_by [OF m, of ex_sampler ex_backend ex_benchmark]
  from th obtain pred where p: "job_filters ''complete'' = Some pred"
    and f: "\<forall>js. jobs ex_sampler ex_backend ex_benchmark None = Inr js \<longrightarrow>
                jobs ex_sampler ex_backend ex_benchmark (Some ''complete'')
                = Inr (filter (pred ex_backend) js)
                \<and> set (filter (pred ex_backend) js) \<subseteq> set js
                \<and> (\<forall>j \<in> set (filter (pred ex_backend) js). pred ex_backend j)
                \<and> (\<forall>j \<in> set js. j \<notin> set (filter (pred ex_backend) js)
                       \<longrightarrow> \<not> pred ex_backend j)"
    by auto
  have pc: "pred = complete" using p by (simp add: job_filters_named)
  have a: "jobs ex_sampler ex_backend ex_benchmark (Some ''complete'')
     = Inr [Algorithm (ex_dep 5 ''NB''), Algorithm (ex_dep 5 ''TR''), Algorithm (ex_dep 5 ''KNN'')]"
    using f [THEN spec, THEN mp, OF ex_jobs_unfiltered, THEN conjunct1]
    unfolding pc by (simp add: ex_backend_def ex_dep_def)
  from jobs_filter_by [OF m, of ex_sampler ex_backend ex_benchmark_bogus]
  have "\<forall>e. jobs ex_sampler ex_backend ex_benchmark_bogus None = Inl e \<longrightarrow>
             jobs ex_sampler ex_backend ex_benchmark_bogus (Some ''complete'') = Inl e"
    by auto
  from this [THEN spec, THEN mp, OF ex_jobs_bogus] a show ?thesis by simp
qed

end
